theory Spec2Isabelle
  imports Main
begin

section \<open>Run-time values, promises and the process\<close>

text \<open>
  The values a remote operation of the SDK can resolve with at run time. The declared
  types are \<^verbatim>\<open>Product[]\<close> and \<^verbatim>\<open>Product\<close>, but \<^verbatim>\<open>result || []\<close> in
  \<^verbatim>\<open>fetchProducts\<close> is written for a result that is not an array, so the model keeps
  the other values too. A product is an opaque record \<open>'p\<close>. A number is kept as an
  integer or NaN: the code never computes with one, and only zero and NaN are falsy.
\<close>

datatype 'p js_value =
    JsUndefined
  | JsNull
  | JsBoolean bool
  | JsNumber int
  | JsNaN
  | JsString string
  | JsArray "'p js_value list"
  | JsObject 'p

text \<open>The conversion to a boolean that \<^verbatim>\<open>||\<close> applies to its left operand.\<close>

fun ToBoolean :: "'p js_value \<Rightarrow> bool" where
  "ToBoolean JsUndefined = False"
| "ToBoolean JsNull = False"
| "ToBoolean (JsBoolean b) = b"
| "ToBoolean (JsNumber n) = (n \<noteq> 0)"
| "ToBoolean JsNaN = False"
| "ToBoolean (JsString s) = (s \<noteq> [])"
| "ToBoolean (JsArray xs) = True"
| "ToBoolean (JsObject p) = True"

text \<open>\<^verbatim>\<open>a || b\<close>: the left operand when it is truthy, the right one otherwise.\<close>

definition js_or :: "'p js_value \<Rightarrow> 'p js_value \<Rightarrow> 'p js_value" where
  "js_or a b = (if ToBoolean a then a else b)"

text \<open>
  What \<^verbatim>\<open>await\<close> finds: the promise is fulfilled with a value, rejected with a thrown
  value, or it never settles and the caller stays suspended. A call that throws before it
  returns its promise is caught by the same \<^verbatim>\<open>try\<close> as a rejection, so it is
  \<open>Rejected\<close> too.
\<close>

datatype ('e, 'a) settled = Resolved 'a | Rejected 'e | Pending

text \<open>\<^verbatim>\<open>new Error(message)\<close>: the only field the code sets is the message.\<close>

datatype js_error = Error (message: string)

text \<open>
  The process as the code touches it: \<^verbatim>\<open>process.env\<close>, where an unset variable reads
  as \<^verbatim>\<open>undefined\<close>, and the diagnostic channel \<^verbatim>\<open>console.error\<close> writes to, one
  entry (label, thrown value) per call, the oldest first.
\<close>

record 'e process =
  env :: "string \<rightharpoonup> string"
  stderr :: "(string \<times> 'e) list"

definition console_error :: "string \<Rightarrow> 'e \<Rightarrow> 'e process \<Rightarrow> 'e process" where
  "console_error label error w = w\<lparr>stderr := stderr w @ [(label, error)]\<rparr>"

section \<open>The SDK\<close>

text \<open>
  The package \<^verbatim>\<open>@crevio/sdk\<close> is a dependency, not part of the repository, so it is a
  parameter of every function below: its constructor, which returns a client handle
  \<open>'c\<close> or throws \<open>'e\<close>, and the two remote operations the code calls on
  \<^verbatim>\<open>crevio.products\<close>.
\<close>

record crevio_options =
  apiKeyAuth :: "string option"
  serverURL :: "string option"

record get_request =
  prefixId :: string

record ('e, 'c, 'p) crevio_sdk =
  Crevio :: "crevio_options \<Rightarrow> 'e + 'c"
  products_list :: "'c \<Rightarrow> ('e, 'p js_value) settled"
  products_get :: "'c \<Rightarrow> get_request \<Rightarrow> ('e, 'p js_value) settled"

section \<open>src/lib/crevio.ts\<close>

definition createCrevioClient :: "('e, 'c, 'p) crevio_sdk \<Rightarrow> 'x process \<Rightarrow> 'e + 'c" where
  "createCrevioClient sdk w =
     Crevio sdk \<lparr>apiKeyAuth = env w ''CREVIO_ACCOUNT_API_KEY'',
                 serverURL = env w ''CREVIO_PROJECT_URL''\<rparr>"

text \<open>The body of the \<^verbatim>\<open>try\<close> block of \<^verbatim>\<open>fetchProducts\<close>.\<close>

definition fetchProducts_try ::
  "('e, 'c, 'p) crevio_sdk \<Rightarrow> 'x process \<Rightarrow> ('e, 'p js_value) settled" where
  "fetchProducts_try sdk w =
     (case createCrevioClient sdk w of
        Inl error \<Rightarrow> Rejected error
      | Inr crevio \<Rightarrow>
          (case products_list sdk crevio of
             Resolved result \<Rightarrow> Resolved (js_or result (JsArray []))
           | Rejected error \<Rightarrow> Rejected error
           | Pending \<Rightarrow> Pending))"

text \<open>
  \<^verbatim>\<open>fetchProducts\<close>: the \<^verbatim>\<open>try\<close> block, and the \<^verbatim>\<open>catch\<close> clause that logs the
  thrown value and throws the generic error. The result is how the returned promise
  settles, and the process afterwards.
\<close>

definition fetchProducts ::
  "('e, 'c, 'p) crevio_sdk \<Rightarrow> 'e process \<Rightarrow> (js_error, 'p js_value) settled \<times> 'e process" where
  "fetchProducts sdk w =
     (case fetchProducts_try sdk w of
        Resolved v \<Rightarrow> (Resolved v, w)
      | Rejected error \<Rightarrow>
          (Rejected (Error ''Failed to load products''),
           console_error ''Error fetching products:'' error w)
      | Pending \<Rightarrow> (Pending, w))"

text \<open>The body of the \<^verbatim>\<open>try\<close> block of \<^verbatim>\<open>fetchProduct\<close>.\<close>

definition fetchProduct_try ::
  "('e, 'c, 'p) crevio_sdk \<Rightarrow> string \<Rightarrow> 'x process \<Rightarrow> ('e, 'p js_value) settled" where
  "fetchProduct_try sdk pid w =
     (case createCrevioClient sdk w of
        Inl error \<Rightarrow> Rejected error
      | Inr crevio \<Rightarrow>
          (case products_get sdk crevio \<lparr>prefixId = pid\<rparr> of
             Resolved result \<Rightarrow> Resolved result
           | Rejected error \<Rightarrow> Rejected error
           | Pending \<Rightarrow> Pending))"

text \<open>
  \<^verbatim>\<open>fetchProduct\<close>; the template literal appends the identifier to the fixed text.
\<close>

definition fetchProduct ::
  "('e, 'c, 'p) crevio_sdk \<Rightarrow> string \<Rightarrow> 'e process
     \<Rightarrow> (js_error, 'p js_value) settled \<times> 'e process" where
  "fetchProduct sdk pid w =
     (case fetchProduct_try sdk pid w of
        Resolved v \<Rightarrow> (Resolved v, w)
      | Rejected error \<Rightarrow>
          (Rejected (Error (''Failed to load product: '' @ pid)),
           console_error ''Error fetching product:'' error w)
      | Pending \<Rightarrow> (Pending, w))"

section \<open>One call\<close>

text \<open>A call of either accessor, as a caller makes it.\<close>

datatype call = FetchProducts | FetchProduct string

fun run_call ::
  "('e, 'c, 'p) crevio_sdk \<Rightarrow> call \<Rightarrow> 'e process
     \<Rightarrow> (js_error, 'p js_value) settled \<times> 'e process" where
  "run_call sdk FetchProducts w = fetchProducts sdk w"
| "run_call sdk (FetchProduct pid) w = fetchProduct sdk pid w"

section \<open>The accessors step by step\<close>

text \<open>
  A finer model of the same two functions, for calls that overlap in time. Here the SDK
  has a state \<open>'s\<close> of its own (the module, the network, the remote service): a call
  into it returns an answer and the state afterwards, so that two constructions can
  return two different handles. A remote operation returns a promise \<open>'pr\<close> or throws.
  An \<^verbatim>\<open>async\<close> function runs up to its \<^verbatim>\<open>await\<close> when it is called, and goes on
  when the promise it awaits has settled; other code runs in between.
\<close>

record ('e, 'c, 'pr, 's) crevio_module =
  new_Crevio :: "crevio_options \<Rightarrow> 's \<Rightarrow> ('e + 'c) \<times> 's"
  call_list :: "'c \<Rightarrow> 's \<Rightarrow> ('e + 'pr) \<times> 's"
  call_get :: "'c \<Rightarrow> get_request \<Rightarrow> 's \<Rightarrow> ('e + 'pr) \<times> 's"

text \<open>
  What a suspended call still holds: the promise it awaits and, in \<^verbatim>\<open>fetchProduct\<close>,
  the identifier its \<^verbatim>\<open>catch\<close> clause puts into the message. The handle is a local
  constant of the call and is not used after the remote operation was called.
\<close>

datatype 'pr task = AwaitList 'pr | AwaitGet string 'pr

datatype 'pr progress = Suspended "'pr task" | Threw js_error

definition createCrevioClient_in ::
  "('e, 'c, 'pr, 's) crevio_module \<Rightarrow> 'x process \<Rightarrow> 's \<Rightarrow> ('e + 'c) \<times> 's" where
  "createCrevioClient_in m p s =
     new_Crevio m \<lparr>apiKeyAuth = env p ''CREVIO_ACCOUNT_API_KEY'',
                   serverURL = env p ''CREVIO_PROJECT_URL''\<rparr> s"

text \<open>The \<^verbatim>\<open>catch\<close> clauses of the two functions.\<close>

definition fetchProducts_catch ::
  "'e \<Rightarrow> 'e process \<Rightarrow> js_error \<times> 'e process" where
  "fetchProducts_catch error p =
     (Error ''Failed to load products'',
      console_error ''Error fetching products:'' error p)"

definition fetchProduct_catch ::
  "string \<Rightarrow> 'e \<Rightarrow> 'e process \<Rightarrow> js_error \<times> 'e process" where
  "fetchProduct_catch pid error p =
     (Error (''Failed to load product: '' @ pid),
      console_error ''Error fetching product:'' error p)"

text \<open>
  \<^verbatim>\<open>fetchProducts\<close> from the call to the \<^verbatim>\<open>await\<close>: the client is constructed, the
  remote operation is called on it, and the function suspends on the promise returned.
  A throw on the way is caught at once.
\<close>

definition fetchProducts_begin ::
  "('e, 'c, 'pr, 's) crevio_module \<Rightarrow> 'e process \<Rightarrow> 's
     \<Rightarrow> 'pr progress \<times> 'e process \<times> 's" where
  "fetchProducts_begin m p s =
     (case createCrevioClient_in m p s of
        (Inl error, s1) \<Rightarrow>
          (case fetchProducts_catch error p of (thrown, p') \<Rightarrow> (Threw thrown, p', s1))
      | (Inr crevio, s1) \<Rightarrow>
          (case call_list m crevio s1 of
             (Inl error, s2) \<Rightarrow>
               (case fetchProducts_catch error p of (thrown, p') \<Rightarrow> (Threw thrown, p', s2))
           | (Inr promise, s2) \<Rightarrow> (Suspended (AwaitList promise), p, s2)))"

text \<open>\<^verbatim>\<open>fetchProducts\<close> from the \<^verbatim>\<open>await\<close> on, once the promise has settled.\<close>

definition fetchProducts_resume ::
  "('e, 'p js_value) settled \<Rightarrow> 'e process \<Rightarrow> (js_error, 'p js_value) settled \<times> 'e process" where
  "fetchProducts_resume out p =
     (case out of
        Resolved result \<Rightarrow> (Resolved (js_or result (JsArray [])), p)
      | Rejected error \<Rightarrow>
          (case fetchProducts_catch error p of (thrown, p') \<Rightarrow> (Rejected thrown, p'))
      | Pending \<Rightarrow> (Pending, p))"

definition fetchProduct_begin ::
  "('e, 'c, 'pr, 's) crevio_module \<Rightarrow> string \<Rightarrow> 'e process \<Rightarrow> 's
     \<Rightarrow> 'pr progress \<times> 'e process \<times> 's" where
  "fetchProduct_begin m pid p s =
     (case createCrevioClient_in m p s of
        (Inl error, s1) \<Rightarrow>
          (case fetchProduct_catch pid error p of (thrown, p') \<Rightarrow> (Threw thrown, p', s1))
      | (Inr crevio, s1) \<Rightarrow>
          (case call_get m crevio \<lparr>prefixId = pid\<rparr> s1 of
             (Inl error, s2) \<Rightarrow>
               (case fetchProduct_catch pid error p of (thrown, p') \<Rightarrow> (Threw thrown, p', s2))
           | (Inr promise, s2) \<Rightarrow> (Suspended (AwaitGet pid promise), p, s2)))"

definition fetchProduct_resume ::
  "string \<Rightarrow> ('e, 'p js_value) settled \<Rightarrow> 'e process
     \<Rightarrow> (js_error, 'p js_value) settled \<times> 'e process" where
  "fetchProduct_resume pid out p =
     (case out of
        Resolved result \<Rightarrow> (Resolved result, p)
      | Rejected error \<Rightarrow>
          (case fetchProduct_catch pid error p of (thrown, p') \<Rightarrow> (Rejected thrown, p'))
      | Pending \<Rightarrow> (Pending, p))"

section \<open>Overlapping calls\<close>

text \<open>
  What can happen in the process while calls are in flight: a caller invokes an
  accessor; the promise that the call with a given number awaits settles (\<open>Pending\<close>:
  not yet); other code sets or unsets an environment variable. Calls are numbered in
  the order they are made. The events come in any order.
\<close>

datatype ('e, 'p) event =
    Invoke call
  | Settle nat "('e, 'p js_value) settled"
  | Setenv string "string option"

record ('e, 'pr, 'p, 's) system =
  proc :: "'e process"
  outside :: 's
  suspended :: "nat \<rightharpoonup> 'pr task"
  finished :: "nat \<rightharpoonup> (js_error, 'p js_value) settled"
  invoked :: nat

fun begin_call ::
  "('e, 'c, 'pr, 's) crevio_module \<Rightarrow> call \<Rightarrow> 'e process \<Rightarrow> 's
     \<Rightarrow> 'pr progress \<times> 'e process \<times> 's" where
  "begin_call m FetchProducts p s = fetchProducts_begin m p s"
| "begin_call m (FetchProduct pid) p s = fetchProduct_begin m pid p s"

fun resume_call ::
  "'pr task \<Rightarrow> ('e, 'p js_value) settled \<Rightarrow> 'e process
     \<Rightarrow> (js_error, 'p js_value) settled \<times> 'e process" where
  "resume_call (AwaitList promise) out p = fetchProducts_resume out p"
| "resume_call (AwaitGet pid promise) out p = fetchProduct_resume pid out p"

fun step ::
  "('e, 'c, 'pr, 's) crevio_module \<Rightarrow> ('e, 'pr, 'p, 's) system \<Rightarrow> ('e, 'p) event
     \<Rightarrow> ('e, 'pr, 'p, 's) system" where
  "step m \<sigma> (Invoke c) =
     (case begin_call m c (proc \<sigma>) (outside \<sigma>) of
        (Suspended t, p, s) \<Rightarrow>
          \<sigma>\<lparr>proc := p, outside := s, suspended := (suspended \<sigma>)(invoked \<sigma> \<mapsto> t),
            invoked := Suc (invoked \<sigma>)\<rparr>
      | (Threw thrown, p, s) \<Rightarrow>
          \<sigma>\<lparr>proc := p, outside := s,
            finished := (finished \<sigma>)(invoked \<sigma> \<mapsto> Rejected thrown),
            invoked := Suc (invoked \<sigma>)\<rparr>)"
| "step m \<sigma> (Settle k out) =
     (case suspended \<sigma> k of
        None \<Rightarrow> \<sigma>
      | Some t \<Rightarrow>
          if out = Pending then \<sigma>
          else (case resume_call t out (proc \<sigma>) of
                  (res, p) \<Rightarrow>
                    \<sigma>\<lparr>proc := p, suspended := (suspended \<sigma>)(k := None),
                      finished := (finished \<sigma>)(k \<mapsto> res)\<rparr>))"
| "step m \<sigma> (Setenv name v) = \<sigma>\<lparr>proc := (proc \<sigma>)\<lparr>env := (env (proc \<sigma>))(name := v)\<rparr>\<rparr>"

definition start :: "(string \<rightharpoonup> string) \<Rightarrow> (string \<times> 'e) list \<Rightarrow> 's \<Rightarrow> ('e, 'pr, 'p, 's) system" where
  "start e0 l0 s0 =
     \<lparr>proc = \<lparr>env = e0, stderr = l0\<rparr>, outside = s0, suspended = Map.empty,
      finished = Map.empty, invoked = 0\<rparr>"

definition run ::
  "('e, 'c, 'pr, 's) crevio_module \<Rightarrow> ('e, 'p) event list \<Rightarrow> ('e, 'pr, 'p, 's) system
     \<Rightarrow> ('e, 'pr, 'p, 's) system" where
  "run m es \<sigma> = foldl (step m) \<sigma> es"

text \<open>How call number \<open>k\<close> has settled; a call still in flight has not.\<close>

definition result_of :: "('e, 'pr, 'p, 's) system \<Rightarrow> nat \<Rightarrow> (js_error, 'p js_value) settled" where
  "result_of \<sigma> k = (case finished \<sigma> k of None \<Rightarrow> Pending | Some res \<Rightarrow> res)"

section \<open>Independent calls as the spec states them\<close>

text \<open>
  The events as a bystander sees them, with no knowledge of the accessors: the
  environment as it is now, every call made so far together with the environment at the
  moment it was made, and for every call the first settlement of its promise.
\<close>

record ('e, 'p) history =
  now :: "string \<rightharpoonup> string"
  calls_made :: "(call \<times> (string \<rightharpoonup> string)) list"
  outcomes :: "nat \<Rightarrow> ('e, 'p js_value) settled"

fun observe :: "('e, 'p) history \<Rightarrow> ('e, 'p) event \<Rightarrow> ('e, 'p) history" where
  "observe h (Invoke c) = h\<lparr>calls_made := calls_made h @ [(c, now h)]\<rparr>"
| "observe h (Settle k out) =
     (if k < length (calls_made h) \<and> outcomes h k = Pending
      then h\<lparr>outcomes := (outcomes h)(k := out)\<rparr> else h)"
| "observe h (Setenv name v) = h\<lparr>now := (now h)(name := v)\<rparr>"

definition watch :: "(string \<rightharpoonup> string) \<Rightarrow> ('e, 'p) event list \<Rightarrow> ('e, 'p) history" where
  "watch e0 es = foldl observe \<lparr>now = e0, calls_made = [], outcomes = (\<lambda>k. Pending)\<rparr> es"

text \<open>
  "Every accessor creates its own client handle", from two values "both read from the
  process environment at call time (not at process startup)": what one call does to the
  SDK is to construct a client from the two variables of the environment it was made
  in, and to call the remote operation it stands for on the handle that this
  construction returned.
\<close>

definition options_from :: "(string \<rightharpoonup> string) \<Rightarrow> crevio_options" where
  "options_from e =
     \<lparr>apiKeyAuth = e ''CREVIO_ACCOUNT_API_KEY'', serverURL = e ''CREVIO_PROJECT_URL''\<rparr>"

definition request_on ::
  "('e, 'c, 'pr, 's) crevio_module \<Rightarrow> call \<Rightarrow> 'c \<Rightarrow> 's \<Rightarrow> ('e + 'pr) \<times> 's" where
  "request_on m c crevio s =
     (case c of
        FetchProducts \<Rightarrow> call_list m crevio s
      | FetchProduct pid \<Rightarrow> call_get m crevio \<lparr>prefixId = pid\<rparr> s)"

definition own_client ::
  "('e, 'c, 'pr, 's) crevio_module \<Rightarrow> 's \<Rightarrow> call \<times> (string \<rightharpoonup> string) \<Rightarrow> 's" where
  "own_client m s ce =
     (case new_Crevio m (options_from (snd ce)) s of
        (Inl error, s1) \<Rightarrow> s1
      | (Inr crevio, s1) \<Rightarrow> snd (request_on m (fst ce) crevio s1))"

text \<open>
  "No shared mutable state exists between calls ... (each call is independent)": a call
  settles as the same call would alone, in the model of one call at a time, given the
  environment it was made in, the answers the SDK gave it when it was made, and the
  settlement of its own promise.
\<close>

definition answers_at ::
  "('e, 'c, 'pr, 's) crevio_module \<Rightarrow> crevio_options \<Rightarrow> 's \<Rightarrow> ('e, 'p js_value) settled
     \<Rightarrow> ('e, 'c, 'p) crevio_sdk" where
  "answers_at m options s out =
     \<lparr>Crevio = (\<lambda>options'. fst (new_Crevio m options' s)),
      products_list = (\<lambda>crevio.
         case fst (call_list m crevio (snd (new_Crevio m options s))) of
           Inl error \<Rightarrow> Rejected error
         | Inr promise \<Rightarrow> out),
      products_get = (\<lambda>crevio request.
         case fst (call_get m crevio request (snd (new_Crevio m options s))) of
           Inl error \<Rightarrow> Rejected error
         | Inr promise \<Rightarrow> out)\<rparr>"

definition alone ::
  "('e, 'c, 'pr, 's) crevio_module \<Rightarrow> 's \<Rightarrow> call \<times> (string \<rightharpoonup> string)
     \<Rightarrow> ('e, 'p js_value) settled \<Rightarrow> (js_error, 'p js_value) settled" where
  "alone m s ce out =
     fst (run_call (answers_at m (options_from (snd ce)) s out) (fst ce)
            \<lparr>env = snd ce, stderr = []\<rparr>)"

section \<open>The bookkeeping of the proof for overlapping calls\<close>

text \<open>
  The state of the SDK just before call number \<open>k\<close> was made, how that call got on up
  to its \<^verbatim>\<open>await\<close>, and what the system must hold for it: nothing but its result once
  it has finished or its promise has settled, its suspended task until then.
\<close>

definition before ::
  "('e, 'c, 'pr, 's) crevio_module \<Rightarrow> 's \<Rightarrow> (call \<times> (string \<rightharpoonup> string)) list \<Rightarrow> nat \<Rightarrow> 's" where
  "before m s0 cs k = foldl (own_client m) s0 (take k cs)"

definition begun ::
  "('e, 'c, 'pr, 's) crevio_module \<Rightarrow> 's \<Rightarrow> (call \<times> (string \<rightharpoonup> string)) list \<Rightarrow> nat
     \<Rightarrow> 'pr progress" where
  "begun m s0 cs k =
     fst (begin_call m (fst (cs ! k)) \<lparr>env = snd (cs ! k), stderr = []\<rparr> (before m s0 cs k))"

definition status_ok ::
  "('e, 'pr, 'p, 's) system \<Rightarrow> nat \<Rightarrow> 'pr progress \<Rightarrow> ('e, 'p js_value) settled
     \<Rightarrow> bool" where
  "status_ok \<sigma> k g out =
     (case g of
        Threw thrown \<Rightarrow> suspended \<sigma> k = None \<and> finished \<sigma> k = Some (Rejected thrown)
      | Suspended t \<Rightarrow>
          if out = Pending then suspended \<sigma> k = Some t \<and> finished \<sigma> k = None
          else suspended \<sigma> k = None
            \<and> finished \<sigma> k = Some (fst (resume_call t out \<lparr>env = Map.empty, stderr = []\<rparr>)))"

definition in_step ::
  "('e, 'c, 'pr, 's) crevio_module \<Rightarrow> 's \<Rightarrow> ('e, 'pr, 'p, 's) system \<Rightarrow> ('e, 'p) history \<Rightarrow> bool" where
  "in_step m s0 \<sigma> h \<longleftrightarrow>
     invoked \<sigma> = length (calls_made h)
     \<and> env (proc \<sigma>) = now h
     \<and> outside \<sigma> = foldl (own_client m) s0 (calls_made h)
     \<and> (\<forall>k. length (calls_made h) \<le> k
           \<longrightarrow> suspended \<sigma> k = None \<and> finished \<sigma> k = None \<and> outcomes h k = Pending)
     \<and> (\<forall>k. k < length (calls_made h)
           \<longrightarrow> status_ok \<sigma> k (begun m s0 (calls_made h) k) (outcomes h k))"

section \<open>The constructor of the client\<close>

text \<open>
  Modelled from the spec: the constructor of the SDK's client class
  (\<^verbatim>\<open>new Crevio({apiKeyAuth, serverURL})\<close>), which the repository imports and does not
  contain. The spec gives it no validation: it returns "a new client handle configured
  with those two values", and "if either configuration value is absent, the handle is
  constructed anyway". The handle is the pair of options it was given.
\<close>

definition Crevio_spec :: "crevio_options \<Rightarrow> 'e + crevio_options" where
  "Crevio_spec options = Inr options"

section \<open>Test doubles\<close>

text \<open>
  Stand-ins for the SDK and the process, for running the accessors on concrete inputs.
  A product is its list of fields, an error of the SDK is its message. The handle of
  \<open>mock_sdk\<close> is the options it was built from; \<open>strict_sdk\<close> has a constructor
  that throws when no server URL is configured.
\<close>

type_synonym product = "(string \<times> string) list"

definition mock_sdk ::
  "(string, product js_value) settled \<Rightarrow> (get_request \<Rightarrow> (string, product js_value) settled)
     \<Rightarrow> (string, crevio_options, product) crevio_sdk" where
  "mock_sdk list_result get_result =
     \<lparr>Crevio = Inr,
      products_list = (\<lambda>crevio. list_result),
      products_get = (\<lambda>crevio request. get_result request)\<rparr>"

definition strict_sdk :: "(string, crevio_options, product) crevio_sdk" where
  "strict_sdk =
     \<lparr>Crevio = (\<lambda>options. case serverURL options of
                   None \<Rightarrow> Inl ''Invalid URL''
                 | Some url \<Rightarrow> Inr options),
      products_list = (\<lambda>crevio. Resolved (JsArray [])),
      products_get = (\<lambda>crevio request. Rejected ''not found'')\<rparr>"

text \<open>A remote "get" that answers with a product carrying the identifier it was asked for.\<close>

definition echo_get :: "get_request \<Rightarrow> (string, product js_value) settled" where
  "echo_get request = Resolved (JsObject [(''id'', prefixId request)])"

text \<open>An SDK whose remote operations refuse a handle that carries no API key.\<close>

definition keyed_sdk :: "(string, crevio_options, product) crevio_sdk" where
  "keyed_sdk =
     \<lparr>Crevio = Inr,
      products_list = (\<lambda>crevio. case apiKeyAuth crevio of
                          None \<Rightarrow> Rejected ''401 Unauthorized''
                        | Some key \<Rightarrow> Resolved (JsArray [])),
      products_get = (\<lambda>crevio request. case apiKeyAuth crevio of
                          None \<Rightarrow> Rejected ''401 Unauthorized''
                        | Some key \<Rightarrow> echo_get request)\<rparr>"

definition mock_env :: "string \<rightharpoonup> string" where
  "mock_env =
     [''CREVIO_ACCOUNT_API_KEY'' \<mapsto> ''key_test'',
      ''CREVIO_PROJECT_URL'' \<mapsto> ''https://shop.example'']"

definition mock_options :: crevio_options where
  "mock_options = \<lparr>apiKeyAuth = Some ''key_test'', serverURL = Some ''https://shop.example''\<rparr>"

definition mock_process :: "string process" where
  "mock_process = \<lparr>env = mock_env, stderr = []\<rparr>"

definition bare_process :: "string process" where
  "bare_process = \<lparr>env = Map.empty, stderr = []\<rparr>"

text \<open>
  The same configuration in a process that has another variable set and has already
  logged a failure.
\<close>

definition later_process :: "string process" where
  "later_process =
     \<lparr>env = mock_env(''NODE_ENV'' \<mapsto> ''production''),
      stderr = [(''Error fetching products:'', ''network error'')]\<rparr>"

text \<open>
  An SDK that keeps a record of how it was used: every construction with the options it
  was given, every remote operation with the handle it was called on. A handle is the
  number of the construction that returned it, so no two constructions return the same
  one. The constructor throws for the options that \<open>refuses\<close> names.
\<close>

datatype request = ListAll | GetOne get_request

record sdk_log =
  constructed :: "crevio_options list"
  requested :: "(nat \<times> request) list"

definition recording_sdk ::
  "(crevio_options \<Rightarrow> string option) \<Rightarrow> (string, nat, nat, sdk_log) crevio_module" where
  "recording_sdk refuses =
     \<lparr>new_Crevio = (\<lambda>options s.
        (case refuses options of
           Some error \<Rightarrow> Inl error
         | None \<Rightarrow> Inr (length (constructed s)),
         s\<lparr>constructed := constructed s @ [options]\<rparr>)),
      call_list = (\<lambda>crevio s.
        (Inr (length (requested s)), s\<lparr>requested := requested s @ [(crevio, ListAll)]\<rparr>)),
      call_get = (\<lambda>crevio request s.
        (Inr (length (requested s)),
         s\<lparr>requested := requested s @ [(crevio, GetOne request)]\<rparr>))\<rparr>"

text \<open>
  Two calls that overlap: the list is asked for, the API key is replaced, one product is
  asked for, the product arrives, and only then the list request fails.
\<close>

definition overlapping :: "(string, product) event list" where
  "overlapping =
     [Invoke FetchProducts,
      Setenv ''CREVIO_ACCOUNT_API_KEY'' (Some ''key_rotated''),
      Invoke (FetchProduct ''prod_123''),
      Settle 1 (Resolved (JsObject [(''id'', ''prod_123'')])),
      Settle 0 (Rejected ''network error'')]"

definition overlapped :: "(string, nat, product, sdk_log) system" where
  "overlapped =
     run (recording_sdk (\<lambda>options. None)) overlapping
       (start mock_env [] \<lparr>constructed = [], requested = []\<rparr>)"

section \<open>Facts shared by the proofs\<close>

lemma mock_createCrevioClient:
  "createCrevioClient (mock_sdk l g) mock_process = Inr mock_options"
  by (simp add: createCrevioClient_def mock_sdk_def mock_process_def mock_env_def mock_options_def)

lemma mock_products_list: "products_list (mock_sdk l g) crevio = l"
  by (simp add: mock_sdk_def)

lemma mock_products_get: "products_get (mock_sdk l g) crevio request = g request"
  by (simp add: mock_sdk_def)

lemma fetchProducts_resolved:
  assumes "createCrevioClient sdk w = Inr crevio"
    and "products_list sdk crevio = Resolved result"
  shows "fetchProducts sdk w = (Resolved (js_or result (JsArray [])), w)"
  using assms by (simp add: fetchProducts_def fetchProducts_try_def)

lemma fetchProduct_try_constructed:
  assumes "createCrevioClient sdk w = Inr crevio"
  shows "fetchProduct_try sdk pid w = products_get sdk crevio \<lparr>prefixId = pid\<rparr>"
  using assms by (simp add: fetchProduct_try_def split: settled.split)

lemma fetchProduct_rejected:
  assumes "fetchProduct_try sdk pid w = Rejected error"
  shows "fetchProduct sdk pid w =
           (Rejected (Error (''Failed to load product: '' @ pid)),
            w\<lparr>stderr := stderr w @ [(''Error fetching product:'', error)]\<rparr>)"
  using assms by (simp add: fetchProduct_def console_error_def)

lemma mock_stderr: "stderr bare_process = []" "stderr mock_process = []"
  by (simp_all add: bare_process_def mock_process_def)

lemma createCrevioClient_forwards:
  "createCrevioClient sdk w =
     Crevio sdk \<lparr>apiKeyAuth = env w ''CREVIO_ACCOUNT_API_KEY'',
                 serverURL = env w ''CREVIO_PROJECT_URL''\<rparr>"
  by (simp add: createCrevioClient_def)

lemma createCrevioClient_env:
  assumes "env w ''CREVIO_ACCOUNT_API_KEY'' = env w' ''CREVIO_ACCOUNT_API_KEY''"
    and "env w ''CREVIO_PROJECT_URL'' = env w' ''CREVIO_PROJECT_URL''"
  shows "createCrevioClient sdk w = createCrevioClient sdk w'"
  using assms by (simp add: createCrevioClient_def)

lemma fst_fetchProducts:
  "fst (fetchProducts sdk w) =
     (case fetchProducts_try sdk w of
        Resolved v \<Rightarrow> Resolved v
      | Rejected error \<Rightarrow> Rejected (Error ''Failed to load products'')
      | Pending \<Rightarrow> Pending)"
  by (simp add: fetchProducts_def split: settled.split)

lemma fst_fetchProduct:
  "fst (fetchProduct sdk pid w) =
     (case fetchProduct_try sdk pid w of
        Resolved v \<Rightarrow> Resolved v
      | Rejected error \<Rightarrow> Rejected (Error (''Failed to load product: '' @ pid))
      | Pending \<Rightarrow> Pending)"
  by (simp add: fetchProduct_def split: settled.split)

section \<open>The list accessor\<close>

text \<open>
  C1. When the client is constructed and the remote "list" operation resolves with a
  falsy value (\<^verbatim>\<open>null\<close>, \<^verbatim>\<open>undefined\<close>, \<^verbatim>\<open>false\<close>, \<^verbatim>\<open>0\<close>, NaN or the empty string),
  \<^verbatim>\<open>fetchProducts\<close> resolves with the empty array: it neither rejects nor resolves
  with the absent value, and it leaves the process as it was.
\<close>

theorem fetchProducts_falsy_result:
  assumes "createCrevioClient sdk w = Inr crevio"
    and "products_list sdk crevio = Resolved result"
    and "\<not> ToBoolean result"
  shows "fetchProducts sdk w = (Resolved (JsArray []), w)"
proof -
  from assms(3) have "js_or result (JsArray []) = JsArray []"
    by (simp add: js_or_def)
  with fetchProducts_resolved [OF assms(1) assms(2)] show ?thesis
    by simp
qed

theorem fetchProducts_falsy_result_witness:
  "createCrevioClient (mock_sdk (Resolved JsNull) echo_get) mock_process = Inr mock_options
   \<and> products_list (mock_sdk (Resolved JsNull) echo_get) mock_options = Resolved JsNull
   \<and> \<not> ToBoolean (JsNull :: product js_value)
   \<and> fetchProducts (mock_sdk (Resolved JsNull) echo_get) mock_process
       = (Resolved (JsArray []), mock_process)"
  using fetchProducts_falsy_result
    [of "mock_sdk (Resolved JsNull) echo_get" mock_process mock_options JsNull]
  by (simp add: mock_createCrevioClient mock_products_list)

text \<open>
  C5. When the client is constructed and the remote "list" operation resolves, a truthy
  result is what \<^verbatim>\<open>fetchProducts\<close> resolves with; every array is truthy, so an array
  comes back as it is, the same elements in the same order. Whatever the remote result,
  the value \<^verbatim>\<open>fetchProducts\<close> resolves with is neither \<^verbatim>\<open>undefined\<close> nor \<^verbatim>\<open>null\<close>.
\<close>

theorem fetchProducts_returns_sequence:
  assumes "createCrevioClient sdk w = Inr crevio"
    and "products_list sdk crevio = Resolved result"
  shows "(ToBoolean result \<longrightarrow> fetchProducts sdk w = (Resolved result, w))
       \<and> (\<forall>products. result = JsArray products
             \<longrightarrow> fetchProducts sdk w = (Resolved (JsArray products), w))
       \<and> (\<exists>v. fetchProducts sdk w = (Resolved v, w) \<and> v \<noteq> JsUndefined \<and> v \<noteq> JsNull)"
proof -
  note r = fetchProducts_resolved [OF assms]
  have truthy: "ToBoolean result \<longrightarrow> fetchProducts sdk w = (Resolved result, w)"
    using r by (simp add: js_or_def)
  have array: "\<forall>products. result = JsArray products
                 \<longrightarrow> fetchProducts sdk w = (Resolved (JsArray products), w)"
    using truthy by auto
  have "js_or result (JsArray []) \<noteq> JsUndefined" "js_or result (JsArray []) \<noteq> JsNull"
    by (cases result; simp add: js_or_def)+
  with r have "\<exists>v. fetchProducts sdk w = (Resolved v, w) \<and> v \<noteq> JsUndefined \<and> v \<noteq> JsNull"
    by blast
  with truthy array show ?thesis
    by blast
qed

theorem fetchProducts_returns_sequence_witness:
  "createCrevioClient
     (mock_sdk (Resolved (JsArray [JsObject [(''id'', ''prod_1'')], JsObject [(''id'', ''prod_2'')]]))
        echo_get) mock_process = Inr mock_options
   \<and> fetchProducts
       (mock_sdk (Resolved (JsArray [JsObject [(''id'', ''prod_1'')], JsObject [(''id'', ''prod_2'')]]))
          echo_get) mock_process
       = (Resolved (JsArray [JsObject [(''id'', ''prod_1'')], JsObject [(''id'', ''prod_2'')]]),
          mock_process)"
  using fetchProducts_returns_sequence
    [of "mock_sdk (Resolved (JsArray [JsObject [(''id'', ''prod_1'')], JsObject [(''id'', ''prod_2'')]]))
           echo_get"
        mock_process mock_options
        "JsArray [JsObject [(''id'', ''prod_1'')], JsObject [(''id'', ''prod_2'')]]"]
  by (simp add: mock_createCrevioClient mock_products_list)

text \<open>
  C2. When the constructor of the client throws, or the client is constructed and the
  remote "list" operation fails, \<^verbatim>\<open>fetchProducts\<close> rejects with an error whose message
  is the fixed text "Failed to load products", whatever was thrown; the thrown value goes
  to the diagnostic channel only, as one entry appended to it.
\<close>

theorem fetchProducts_failure:
  assumes "createCrevioClient sdk w = Inl error
           \<or> (\<exists>crevio. createCrevioClient sdk w = Inr crevio
                 \<and> products_list sdk crevio = Rejected error)"
  shows "fetchProducts sdk w =
           (Rejected (Error ''Failed to load products''),
            w\<lparr>stderr := stderr w @ [(''Error fetching products:'', error)]\<rparr>)"
proof -
  from assms have "fetchProducts_try sdk w = Rejected error"
  proof
    assume "createCrevioClient sdk w = Inl error"
    then show ?thesis by (simp add: fetchProducts_try_def)
  next
    assume "\<exists>crevio. createCrevioClient sdk w = Inr crevio
              \<and> products_list sdk crevio = Rejected error"
    then obtain crevio where "createCrevioClient sdk w = Inr crevio"
      and "products_list sdk crevio = Rejected error" by blast
    then show ?thesis by (simp add: fetchProducts_try_def)
  qed
  then show ?thesis
    by (simp add: fetchProducts_def console_error_def)
qed

theorem fetchProducts_failure_witness:
  "createCrevioClient strict_sdk bare_process = Inl ''Invalid URL''
   \<and> fetchProducts strict_sdk bare_process
       = (Rejected (Error ''Failed to load products''),
          bare_process\<lparr>stderr := [(''Error fetching products:'', ''Invalid URL'')]\<rparr>)
   \<and> products_list (mock_sdk (Rejected ''network error'') echo_get) mock_options
       = Rejected ''network error''
   \<and> fetchProducts (mock_sdk (Rejected ''network error'') echo_get) mock_process
       = (Rejected (Error ''Failed to load products''),
          mock_process\<lparr>stderr := [(''Error fetching products:'', ''network error'')]\<rparr>)"
proof -
  have c: "createCrevioClient strict_sdk bare_process = Inl ''Invalid URL''"
    by (simp add: createCrevioClient_def strict_sdk_def bare_process_def)
  have e: "stderr bare_process = []" "stderr mock_process = []"
    by (simp_all add: bare_process_def mock_process_def)
  show ?thesis
    using fetchProducts_failure [of strict_sdk bare_process "''Invalid URL''"]
      fetchProducts_failure
        [of "mock_sdk (Rejected ''network error'') echo_get" mock_process "''network error''"]
    by (simp add: c e mock_createCrevioClient mock_products_list)
qed

section \<open>The accessor of one product\<close>

text \<open>
  C4. For a non-empty identifier, when the client is constructed and the remote "get"
  operation, called with the request that holds the identifier as it was given, resolves
  with a value, \<^verbatim>\<open>fetchProduct\<close> resolves with that very value and leaves the process
  as it was. The SDK is arbitrary, so the request it sees is the identifier unchanged.
\<close>

theorem fetchProduct_resolved:
  assumes "pid \<noteq> []"
    and "createCrevioClient sdk w = Inr crevio"
    and "products_get sdk crevio \<lparr>prefixId = pid\<rparr> = Resolved result"
  shows "fetchProduct sdk pid w = (Resolved result, w)"
proof -
  have "fetchProduct_try sdk pid w = Resolved result"
    using fetchProduct_try_constructed [OF assms(2)] assms(3) by simp
  then show ?thesis
    by (simp add: fetchProduct_def)
qed

theorem fetchProduct_resolved_witness:
  "''prod_123'' \<noteq> []
   \<and> createCrevioClient (mock_sdk Pending echo_get) mock_process = Inr mock_options
   \<and> products_get (mock_sdk Pending echo_get) mock_options \<lparr>prefixId = ''prod_123''\<rparr>
       = Resolved (JsObject [(''id'', ''prod_123'')])
   \<and> fetchProduct (mock_sdk Pending echo_get) ''prod_123'' mock_process
       = (Resolved (JsObject [(''id'', ''prod_123'')]), mock_process)"
  using fetchProduct_resolved
    [of "''prod_123''" "mock_sdk Pending echo_get" mock_process mock_options
        "JsObject [(''id'', ''prod_123'')]"]
  by (simp add: mock_createCrevioClient mock_products_get echo_get_def)

text \<open>
  C3. For every identifier, when the constructor of the client throws, or the client is
  constructed and the remote "get" operation fails, \<^verbatim>\<open>fetchProduct\<close> rejects with an
  error whose message is "Failed to load product: " followed by the identifier. The
  message does not depend on what was thrown; the thrown value is appended to the
  diagnostic channel.
\<close>

theorem fetchProduct_failure:
  assumes "createCrevioClient sdk w = Inl error
           \<or> (\<exists>crevio. createCrevioClient sdk w = Inr crevio
                 \<and> products_get sdk crevio \<lparr>prefixId = pid\<rparr> = Rejected error)"
  shows "fetchProduct sdk pid w =
           (Rejected (Error (''Failed to load product: '' @ pid)),
            w\<lparr>stderr := stderr w @ [(''Error fetching product:'', error)]\<rparr>)"
  using assms
proof (elim disjE exE conjE)
  assume "createCrevioClient sdk w = Inl error"
  then have "fetchProduct_try sdk pid w = Rejected error"
    by (simp add: fetchProduct_try_def)
  then show ?thesis by (rule fetchProduct_rejected)
next
  fix crevio
  assume "createCrevioClient sdk w = Inr crevio"
    and "products_get sdk crevio \<lparr>prefixId = pid\<rparr> = Rejected error"
  then have "fetchProduct_try sdk pid w = Rejected error"
    by (simp add: fetchProduct_try_constructed)
  then show ?thesis by (rule fetchProduct_rejected)
qed

theorem fetchProduct_failure_witness:
  "products_get (mock_sdk Pending (\<lambda>request. Rejected ''network error'')) mock_options
       \<lparr>prefixId = ''prod_123''\<rparr> = Rejected ''network error''
   \<and> fetchProduct (mock_sdk Pending (\<lambda>request. Rejected ''network error'')) ''prod_123'' mock_process
       = (Rejected (Error ''Failed to load product: prod_123''),
          mock_process\<lparr>stderr := [(''Error fetching product:'', ''network error'')]\<rparr>)
   \<and> createCrevioClient strict_sdk bare_process = Inl ''Invalid URL''
   \<and> fetchProduct strict_sdk ''prod_123'' bare_process
       = (Rejected (Error ''Failed to load product: prod_123''),
          bare_process\<lparr>stderr := [(''Error fetching product:'', ''Invalid URL'')]\<rparr>)"
proof -
  have c: "createCrevioClient strict_sdk bare_process = Inl ''Invalid URL''"
    by (simp add: createCrevioClient_def strict_sdk_def bare_process_def)
  show ?thesis
    using fetchProduct_failure
        [of "mock_sdk Pending (\<lambda>request. Rejected ''network error'')" mock_process
            "''network error''" "''prod_123''"]
      fetchProduct_failure [of strict_sdk bare_process "''Invalid URL''" "''prod_123''"]
    by (simp add: c mock_stderr mock_createCrevioClient mock_products_get)
qed

text \<open>
  C8. When the client is constructed and the remote "get" operation resolves with a falsy
  value, \<^verbatim>\<open>fetchProduct\<close> resolves with that value as it is: no default takes its place
  and no error is raised. \<^verbatim>\<open>fetchProducts\<close> differs: had the remote "list" operation
  resolved with the same value, it would resolve with the empty array, another value.
\<close>

theorem fetchProduct_falsy_result:
  assumes "createCrevioClient sdk w = Inr crevio"
    and "products_get sdk crevio \<lparr>prefixId = pid\<rparr> = Resolved result"
    and "\<not> ToBoolean result"
  shows "fetchProduct sdk pid w = (Resolved result, w)
       \<and> (products_list sdk crevio = Resolved result
            \<longrightarrow> fetchProducts sdk w = (Resolved (JsArray []), w) \<and> JsArray [] \<noteq> result)"
proof
  have "fetchProduct_try sdk pid w = Resolved result"
    using fetchProduct_try_constructed [OF assms(1)] assms(2) by simp
  then show "fetchProduct sdk pid w = (Resolved result, w)"
    by (simp add: fetchProduct_def)
next
  show "products_list sdk crevio = Resolved result
          \<longrightarrow> fetchProducts sdk w = (Resolved (JsArray []), w) \<and> JsArray [] \<noteq> result"
  proof
    assume l: "products_list sdk crevio = Resolved result"
    from assms(3) have "js_or result (JsArray []) = JsArray []" and "JsArray [] \<noteq> result"
      by (auto simp add: js_or_def)
    with fetchProducts_resolved [OF assms(1) l]
    show "fetchProducts sdk w = (Resolved (JsArray []), w) \<and> JsArray [] \<noteq> result"
      by simp
  qed
qed

theorem fetchProduct_falsy_result_witness:
  "createCrevioClient (mock_sdk (Resolved JsNull) (\<lambda>request. Resolved JsNull)) mock_process
       = Inr mock_options
   \<and> \<not> ToBoolean (JsNull :: product js_value)
   \<and> fetchProduct (mock_sdk (Resolved JsNull) (\<lambda>request. Resolved JsNull)) ''prod_123'' mock_process
       = (Resolved JsNull, mock_process)
   \<and> fetchProducts (mock_sdk (Resolved JsNull) (\<lambda>request. Resolved JsNull)) mock_process
       = (Resolved (JsArray []), mock_process)"
  using fetchProduct_falsy_result
    [of "mock_sdk (Resolved JsNull) (\<lambda>request. Resolved JsNull)" mock_process mock_options
        "''prod_123''" JsNull]
  by (simp add: mock_createCrevioClient mock_products_get mock_products_list)

text \<open>
  C9. The empty identifier is treated as any other: when the client is constructed, the
  remote "get" operation is called with the request that holds the empty string; the
  value it resolves with is the value of \<^verbatim>\<open>fetchProduct\<close>, and when it fails the
  rejection carries the message "Failed to load product: ", the template with nothing
  after it.
\<close>

theorem fetchProduct_empty_identifier:
  assumes "createCrevioClient sdk w = Inr crevio"
  shows "(\<forall>result. products_get sdk crevio \<lparr>prefixId = ''''\<rparr> = Resolved result
            \<longrightarrow> fetchProduct sdk '''' w = (Resolved result, w))
       \<and> (\<forall>error. products_get sdk crevio \<lparr>prefixId = ''''\<rparr> = Rejected error
            \<longrightarrow> fetchProduct sdk '''' w =
                  (Rejected (Error ''Failed to load product: ''),
                   w\<lparr>stderr := stderr w @ [(''Error fetching product:'', error)]\<rparr>))"
proof (intro conjI allI impI)
  fix result
  assume "products_get sdk crevio \<lparr>prefixId = ''''\<rparr> = Resolved result"
  with fetchProduct_try_constructed [OF assms, of "''''"]
  show "fetchProduct sdk '''' w = (Resolved result, w)"
    by (simp add: fetchProduct_def)
next
  fix error
  assume "products_get sdk crevio \<lparr>prefixId = ''''\<rparr> = Rejected error"
  with fetchProduct_try_constructed [OF assms, of "''''"]
  have "fetchProduct_try sdk '''' w = Rejected error"
    by simp
  from fetchProduct_rejected [OF this]
  show "fetchProduct sdk '''' w =
          (Rejected (Error ''Failed to load product: ''),
           w\<lparr>stderr := stderr w @ [(''Error fetching product:'', error)]\<rparr>)"
    by simp
qed

theorem fetchProduct_empty_identifier_witness:
  "createCrevioClient (mock_sdk Pending echo_get) mock_process = Inr mock_options
   \<and> fetchProduct (mock_sdk Pending echo_get) '''' mock_process
       = (Resolved (JsObject [(''id'', '''')]), mock_process)
   \<and> fetchProduct (mock_sdk Pending (\<lambda>request. Rejected ''not found'')) '''' mock_process
       = (Rejected (Error ''Failed to load product: ''),
          mock_process\<lparr>stderr := [(''Error fetching product:'', ''not found'')]\<rparr>)"
  using fetchProduct_empty_identifier [of "mock_sdk Pending echo_get" mock_process mock_options]
    fetchProduct_empty_identifier
      [of "mock_sdk Pending (\<lambda>request. Rejected ''not found'')" mock_process mock_options]
  by (simp add: mock_stderr mock_createCrevioClient mock_products_get echo_get_def)

section \<open>Construction of the client\<close>

text \<open>
  C6. \<^verbatim>\<open>createCrevioClient\<close> checks neither configuration value: what it returns is
  what the constructor returns for the two values as the environment has them, an unset
  variable passed on as unset. With the constructor the spec describes, it returns a
  handle in every process, also when the API key or the server URL is unset, and the
  handle carries the two values. A remote operation that then fails on that handle makes
  the accessor reject with its generic message, logged as any other remote failure.
\<close>

theorem createCrevioClient_no_validation:
  "createCrevioClient sdk w =
     Crevio sdk
       \<lparr>apiKeyAuth = env w ''CREVIO_ACCOUNT_API_KEY'', serverURL = env w ''CREVIO_PROJECT_URL''\<rparr>
   \<and> createCrevioClient (sdk\<lparr>Crevio := Crevio_spec\<rparr>) w =
     Inr \<lparr>apiKeyAuth = env w ''CREVIO_ACCOUNT_API_KEY'', serverURL = env w ''CREVIO_PROJECT_URL''\<rparr>
   \<and> (products_list sdk
         \<lparr>apiKeyAuth = env w ''CREVIO_ACCOUNT_API_KEY'', serverURL = env w ''CREVIO_PROJECT_URL''\<rparr>
        = Rejected error
      \<longrightarrow> fetchProducts (sdk\<lparr>Crevio := Crevio_spec\<rparr>) w =
            (Rejected (Error ''Failed to load products''),
             w\<lparr>stderr := stderr w @ [(''Error fetching products:'', error)]\<rparr>))
   \<and> (products_get sdk
         \<lparr>apiKeyAuth = env w ''CREVIO_ACCOUNT_API_KEY'', serverURL = env w ''CREVIO_PROJECT_URL''\<rparr>
         \<lparr>prefixId = pid\<rparr> = Rejected error
      \<longrightarrow> fetchProduct (sdk\<lparr>Crevio := Crevio_spec\<rparr>) pid w =
            (Rejected (Error (''Failed to load product: '' @ pid)),
             w\<lparr>stderr := stderr w @ [(''Error fetching product:'', error)]\<rparr>))"
proof -
  let ?sdk = "sdk\<lparr>Crevio := Crevio_spec\<rparr>"
  let ?options =
    "\<lparr>apiKeyAuth = env w ''CREVIO_ACCOUNT_API_KEY'', serverURL = env w ''CREVIO_PROJECT_URL''\<rparr>"
  have constructed: "createCrevioClient ?sdk w = Inr ?options"
    by (simp add: createCrevioClient_forwards Crevio_spec_def)
  show ?thesis
  proof (intro conjI impI)
    show "createCrevioClient sdk w = Crevio sdk ?options"
      by (rule createCrevioClient_forwards)
    show "createCrevioClient ?sdk w = Inr ?options"
      by (rule constructed)
    show "fetchProducts ?sdk w =
        (Rejected (Error ''Failed to load products''),
         w\<lparr>stderr := stderr w @ [(''Error fetching products:'', error)]\<rparr>)"
      if "products_list sdk ?options = Rejected error"
      using that constructed
      by (simp add: fetchProducts_def fetchProducts_try_def console_error_def)
    show "fetchProduct ?sdk pid w =
        (Rejected (Error (''Failed to load product: '' @ pid)),
         w\<lparr>stderr := stderr w @ [(''Error fetching product:'', error)]\<rparr>)"
      if "products_get sdk ?options \<lparr>prefixId = pid\<rparr> = Rejected error"
    proof -
      from that have "fetchProduct_try ?sdk pid w = Rejected error"
        by (simp add: fetchProduct_try_constructed [OF constructed])
      then show ?thesis by (rule fetchProduct_rejected)
    qed
  qed
qed

theorem createCrevioClient_no_validation_witness:
  "env bare_process ''CREVIO_ACCOUNT_API_KEY'' = None
   \<and> env bare_process ''CREVIO_PROJECT_URL'' = None
   \<and> createCrevioClient (keyed_sdk\<lparr>Crevio := Crevio_spec\<rparr>) bare_process
       = Inr \<lparr>apiKeyAuth = None, serverURL = None\<rparr>
   \<and> fetchProducts (keyed_sdk\<lparr>Crevio := Crevio_spec\<rparr>) bare_process
       = (Rejected (Error ''Failed to load products''),
          bare_process\<lparr>stderr := [(''Error fetching products:'', ''401 Unauthorized'')]\<rparr>)
   \<and> fetchProduct (keyed_sdk\<lparr>Crevio := Crevio_spec\<rparr>) ''prod_123'' bare_process
       = (Rejected (Error ''Failed to load product: prod_123''),
          bare_process\<lparr>stderr := [(''Error fetching product:'', ''401 Unauthorized'')]\<rparr>)"
proof -
  have e: "env bare_process = Map.empty"
    by (simp add: bare_process_def)
  have l: "products_list keyed_sdk \<lparr>apiKeyAuth = None, serverURL = None\<rparr>
             = Rejected ''401 Unauthorized''"
    and g: "products_get keyed_sdk \<lparr>apiKeyAuth = None, serverURL = None\<rparr>
              \<lparr>prefixId = ''prod_123''\<rparr> = Rejected ''401 Unauthorized''"
    by (simp_all add: keyed_sdk_def)
  show ?thesis
    using createCrevioClient_no_validation
      [of keyed_sdk bare_process "''401 Unauthorized''" "''prod_123''"]
    by (simp add: e l g mock_stderr)
qed

section \<open>Overlapping calls keep in step with their history\<close>

lemma run_snoc: "run m (es @ [e]) \<sigma> = step m (run m es \<sigma>) e"
  by (simp add: run_def)

lemma watch_snoc: "watch e0 (es @ [e]) = observe (watch e0 es) e"
  by (simp add: watch_def)

lemma fetchProducts_begin_facts:
  "fst (snd (fetchProducts_begin m p s)) = p
     \<or> (\<exists>error. fst (snd (fetchProducts_begin m p s))
           = p\<lparr>stderr := stderr p @ [(''Error fetching products:'', error)]\<rparr>)"
  "snd (snd (fetchProducts_begin m p s)) = own_client m s (FetchProducts, env p)"
  by (auto simp add: fetchProducts_begin_def createCrevioClient_in_def fetchProducts_catch_def
      console_error_def own_client_def options_from_def request_on_def
      split: prod.splits sum.splits)

lemma fetchProduct_begin_facts:
  "fst (snd (fetchProduct_begin m pid p s)) = p
     \<or> (\<exists>error. fst (snd (fetchProduct_begin m pid p s))
           = p\<lparr>stderr := stderr p @ [(''Error fetching product:'', error)]\<rparr>)"
  "snd (snd (fetchProduct_begin m pid p s)) = own_client m s (FetchProduct pid, env p)"
  by (auto simp add: fetchProduct_begin_def createCrevioClient_in_def fetchProduct_catch_def
      console_error_def own_client_def options_from_def request_on_def
      split: prod.splits sum.splits)

lemma begin_call_env: "env (fst (snd (begin_call m c p s))) = env p"
proof (cases c)
  case FetchProducts
  with fetchProducts_begin_facts(1) [of m p s] show ?thesis by auto
next
  case (FetchProduct pid)
  with fetchProduct_begin_facts(1) [of m pid p s] show ?thesis by auto
qed

lemma begin_call_outside: "snd (snd (begin_call m c p s)) = own_client m s (c, env p)"
  by (cases c) (simp_all add: fetchProducts_begin_facts(2) fetchProduct_begin_facts(2))

lemma begin_call_frame:
  assumes "env p = env p'"
  shows "fst (begin_call m c p s) = fst (begin_call m c p' s)"
  using assms
  by (cases c)
    (auto simp add: fetchProducts_begin_def fetchProduct_begin_def createCrevioClient_in_def
      fetchProducts_catch_def fetchProduct_catch_def split: prod.splits sum.splits)

lemma resume_call_frame: "fst (resume_call t out p) = fst (resume_call t out p')"
  by (cases t; cases out)
    (simp_all add: fetchProducts_resume_def fetchProduct_resume_def fetchProducts_catch_def
      fetchProduct_catch_def)

lemma resume_call_env: "env (snd (resume_call t out p)) = env p"
  by (cases t; cases out)
    (simp_all add: fetchProducts_resume_def fetchProduct_resume_def fetchProducts_catch_def
      fetchProduct_catch_def console_error_def)

lemma resume_call_Pending: "fst (resume_call t Pending p) = Pending"
  by (cases t) (simp_all add: fetchProducts_resume_def fetchProduct_resume_def)

lemma begin_resume_alone:
  "(case fst (begin_call m c p s) of
      Threw thrown \<Rightarrow> Rejected thrown
    | Suspended t \<Rightarrow> fst (resume_call t out p')) = alone m s (c, env p) out"
proof (cases c)
  case FetchProducts
  obtain a s1 where n: "new_Crevio m (options_from (env p)) s = (a, s1)"
    by (cases "new_Crevio m (options_from (env p)) s")
  show ?thesis
  proof (cases a)
    case (Inl error)
    with FetchProducts n show ?thesis
      by (simp add: alone_def fst_fetchProducts fetchProducts_try_def createCrevioClient_def
          answers_at_def fetchProducts_begin_def createCrevioClient_in_def fetchProducts_catch_def
          options_from_def)
  next
    case (Inr crevio)
    obtain b s2 where l: "call_list m crevio s1 = (b, s2)"
      by (cases "call_list m crevio s1")
    from FetchProducts n Inr l show ?thesis
      by (cases b; cases out)
        (simp_all add: alone_def fst_fetchProducts fetchProducts_try_def createCrevioClient_def
          answers_at_def fetchProducts_begin_def createCrevioClient_in_def fetchProducts_catch_def
          fetchProducts_resume_def options_from_def)
  qed
next
  case (FetchProduct pid)
  obtain a s1 where n: "new_Crevio m (options_from (env p)) s = (a, s1)"
    by (cases "new_Crevio m (options_from (env p)) s")
  show ?thesis
  proof (cases a)
    case (Inl error)
    with FetchProduct n show ?thesis
      by (simp add: alone_def fst_fetchProduct fetchProduct_try_def createCrevioClient_def
          answers_at_def fetchProduct_begin_def createCrevioClient_in_def fetchProduct_catch_def
          options_from_def)
  next
    case (Inr crevio)
    obtain b s2 where l: "call_get m crevio \<lparr>prefixId = pid\<rparr> s1 = (b, s2)"
      by (cases "call_get m crevio \<lparr>prefixId = pid\<rparr> s1")
    from FetchProduct n Inr l show ?thesis
      by (cases b; cases out)
        (simp_all add: alone_def fst_fetchProduct fetchProduct_try_def createCrevioClient_def
          answers_at_def fetchProduct_begin_def createCrevioClient_in_def fetchProduct_catch_def
          fetchProduct_resume_def options_from_def)
  qed
qed

lemma in_step_start: "in_step m s0 (start e0 l0 s0) (watch e0 [])"
  by (simp add: in_step_def start_def watch_def)

lemma status_ok_same:
  assumes "suspended \<sigma>' k = suspended \<sigma> k" and "finished \<sigma>' k = finished \<sigma> k"
  shows "status_ok \<sigma>' k g out = status_ok \<sigma> k g out"
  using assms by (simp add: status_ok_def split: progress.split)

lemma in_step_Setenv:
  assumes "in_step m s0 \<sigma> h"
  shows "in_step m s0 (step m \<sigma> (Setenv name v)) (observe h (Setenv name v))"
proof -
  let ?\<sigma> = "step m \<sigma> (Setenv name v)"
  have "status_ok ?\<sigma> k g out = status_ok \<sigma> k g out" for k g out
    by (rule status_ok_same) simp_all
  with assms show ?thesis
    by (simp add: in_step_def)
qed

lemma in_stepI:
  assumes "invoked \<sigma> = length (calls_made h)"
    and "env (proc \<sigma>) = now h"
    and "outside \<sigma> = foldl (own_client m) s0 (calls_made h)"
    and "\<And>k. length (calls_made h) \<le> k
           \<Longrightarrow> suspended \<sigma> k = None \<and> finished \<sigma> k = None \<and> outcomes h k = Pending"
    and "\<And>k. k < length (calls_made h)
           \<Longrightarrow> status_ok \<sigma> k (begun m s0 (calls_made h) k) (outcomes h k)"
  shows "in_step m s0 \<sigma> h"
  using assms by (simp add: in_step_def)

lemma in_stepD:
  assumes "in_step m s0 \<sigma> h"
  shows "invoked \<sigma> = length (calls_made h)"
    and "env (proc \<sigma>) = now h"
    and "outside \<sigma> = foldl (own_client m) s0 (calls_made h)"
    and "\<And>k. length (calls_made h) \<le> k
           \<Longrightarrow> suspended \<sigma> k = None \<and> finished \<sigma> k = None \<and> outcomes h k = Pending"
    and "\<And>k. k < length (calls_made h)
           \<Longrightarrow> status_ok \<sigma> k (begun m s0 (calls_made h) k) (outcomes h k)"
  using assms by (simp_all add: in_step_def)

lemma begun_earlier:
  assumes "k < length cs"
  shows "begun m s0 (cs @ [x]) k = begun m s0 cs k"
  using assms by (simp add: begun_def before_def nth_append)

lemma begun_latest:
  "begun m s0 (cs @ [(c, e)]) (length cs)
     = fst (begin_call m c \<lparr>env = e, stderr = []\<rparr> (foldl (own_client m) s0 cs))"
  by (simp add: begun_def before_def)

lemma in_step_Invoke:
  assumes inv: "in_step m s0 \<sigma> h"
  shows "in_step m s0 (step m \<sigma> (Invoke c)) (observe h (Invoke c))"
proof -
  let ?cs = "calls_made h"
  let ?n = "length ?cs"
  let ?\<sigma> = "step m \<sigma> (Invoke c)"
  let ?h = "observe h (Invoke c)"
  note d = in_stepD [OF inv]
  obtain g p' s' where b: "begin_call m c (proc \<sigma>) (outside \<sigma>) = (g, p', s')"
    by (cases "begin_call m c (proc \<sigma>) (outside \<sigma>)")
  have p': "env p' = now h"
    using begin_call_env [of m c "proc \<sigma>" "outside \<sigma>"] b d(2) by simp
  have s': "s' = foldl (own_client m) s0 (?cs @ [(c, now h)])"
    using begin_call_outside [of m c "proc \<sigma>" "outside \<sigma>"] b d(2) d(3) by simp
  have g: "begun m s0 (?cs @ [(c, now h)]) ?n = g"
  proof -
    have "fst (begin_call m c \<lparr>env = now h, stderr = []\<rparr> (outside \<sigma>))
        = fst (begin_call m c (proc \<sigma>) (outside \<sigma>))"
      by (rule begin_call_frame) (simp add: d(2))
    with b d(3) show ?thesis
      by (simp add: begun_latest)
  qed
  have fresh: "suspended \<sigma> ?n = None" "finished \<sigma> ?n = None" "outcomes h ?n = Pending"
    using d(4) [of ?n] by simp_all
  have calls: "calls_made ?h = ?cs @ [(c, now h)]" and out: "outcomes ?h = outcomes h"
    and now: "now ?h = now h"
    by simp_all
  have inv\<sigma>: "invoked ?\<sigma> = Suc ?n" and proc\<sigma>: "proc ?\<sigma> = p'" and out\<sigma>: "outside ?\<sigma> = s'"
    using b d(1) by (cases g; simp)+
  have other: "suspended ?\<sigma> k = suspended \<sigma> k \<and> finished ?\<sigma> k = finished \<sigma> k"
    if "k \<noteq> ?n" for k
    using b d(1) that by (cases g) simp_all
  have latest: "status_ok ?\<sigma> ?n g Pending"
    using b d(1) fresh by (cases g) (simp_all add: status_ok_def)
  show ?thesis
  proof (rule in_stepI)
    show "invoked ?\<sigma> = length (calls_made ?h)"
      by (simp only: inv\<sigma> calls) simp
    show "env (proc ?\<sigma>) = now ?h"
      by (simp only: proc\<sigma> now p')
    show "outside ?\<sigma> = foldl (own_client m) s0 (calls_made ?h)"
      by (simp only: out\<sigma> calls s')
    show "suspended ?\<sigma> k = None \<and> finished ?\<sigma> k = None \<and> outcomes ?h k = Pending"
      if "length (calls_made ?h) \<le> k" for k
    proof -
      from that have k: "?n \<le> k" "k \<noteq> ?n"
        by (simp_all add: calls)
      with other [of k] d(4) [of k] show ?thesis
        by (simp add: out)
    qed
    show "status_ok ?\<sigma> k (begun m s0 (calls_made ?h) k) (outcomes ?h k)"
      if "k < length (calls_made ?h)" for k
    proof (cases "k = ?n")
      case True
      with latest g fresh(3) show ?thesis
        by (simp add: calls out)
    next
      case False
      with that have k: "k < ?n"
        by (simp add: calls)
      have "status_ok ?\<sigma> k (begun m s0 ?cs k) (outcomes h k)
          = status_ok \<sigma> k (begun m s0 ?cs k) (outcomes h k)"
        using other [OF False] by (intro status_ok_same) simp_all
      with d(5) [OF k] show ?thesis
        by (simp add: calls out begun_earlier [OF k])
    qed
  qed
qed

lemma in_step_Settle:
  assumes inv: "in_step m s0 \<sigma> h"
  shows "in_step m s0 (step m \<sigma> (Settle j out)) (observe h (Settle j out))"
proof -
  let ?cs = "calls_made h"
  let ?n = "length ?cs"
  let ?\<sigma> = "step m \<sigma> (Settle j out)"
  let ?h = "observe h (Settle j out)"
  note d = in_stepD [OF inv]
  have calls: "calls_made ?h = ?cs" and now: "now ?h = now h"
    by simp_all
  show ?thesis
  proof (cases "suspended \<sigma> j")
    case None
    then have same: "?\<sigma> = \<sigma>"
      by simp
    have threw: "\<exists>thrown. begun m s0 ?cs j = Threw thrown" if "j < ?n" "outcomes h j = Pending"
    proof (cases "begun m s0 ?cs j")
      case (Suspended t)
      with d(5) [OF that(1)] that(2) None show ?thesis
        by (simp add: status_ok_def)
    next
      case (Threw thrown)
      then show ?thesis by simp
    qed
    show ?thesis
    proof (rule in_stepI)
      show "invoked ?\<sigma> = length (calls_made ?h)"
        by (simp only: same calls d(1))
      show "env (proc ?\<sigma>) = now ?h"
        by (simp only: same now d(2))
      show "outside ?\<sigma> = foldl (own_client m) s0 (calls_made ?h)"
        by (simp only: same calls d(3))
      show "suspended ?\<sigma> k = None \<and> finished ?\<sigma> k = None \<and> outcomes ?h k = Pending"
        if "length (calls_made ?h) \<le> k" for k
        using that d(4) [of k] by (simp only: same calls) simp
      show "status_ok ?\<sigma> k (begun m s0 (calls_made ?h) k) (outcomes ?h k)"
        if "k < length (calls_made ?h)" for k
      proof (cases "k = j \<and> outcomes h j = Pending")
        case True
        from that have "k < ?n"
          by (simp only: calls)
        with True have "j < ?n" "outcomes h j = Pending"
          by simp_all
        from threw [OF this] obtain thrown where "begun m s0 ?cs j = Threw thrown" ..
        with d(5) [of j] True that show ?thesis
          by (simp only: same calls) (simp add: status_ok_def)
      next
        case False
        then have o: "outcomes ?h k = outcomes h k"
          by auto
        from that have k: "k < ?n"
          by (simp only: calls)
        from d(5) [OF k] show ?thesis
          by (simp only: same calls o)
      qed
    qed
  next
    case (Some t)
    have j: "j < ?n"
    proof (rule ccontr)
      assume "\<not> j < ?n"
      with d(4) [of j] Some show False
        by simp
    qed
    have waiting: "begun m s0 ?cs j = Suspended t \<and> outcomes h j = Pending"
    proof (cases "begun m s0 ?cs j")
      case (Suspended t')
      with d(5) [OF j] Some show ?thesis
        by (simp add: status_ok_def split: if_splits)
    next
      case (Threw thrown)
      with d(5) [OF j] Some show ?thesis
        by (simp add: status_ok_def)
    qed
    show ?thesis
    proof (cases "out = Pending")
      case True
      with Some have "?\<sigma> = \<sigma>"
        by simp
      moreover have "?h = h"
      proof -
        from waiting have "(outcomes h)(j := Pending) = outcomes h"
          by (intro fun_upd_idem) simp
        with True show ?thesis
          by simp
      qed
      ultimately show ?thesis
        using inv by simp
    next
      case False
      obtain res p' where r: "resume_call t out (proc \<sigma>) = (res, p')"
        by (cases "resume_call t out (proc \<sigma>)")
      have \<sigma>': "?\<sigma> = \<sigma>\<lparr>proc := p', suspended := (suspended \<sigma>)(j := None),
          finished := (finished \<sigma>)(j \<mapsto> res)\<rparr>"
        using Some False r by simp
      have h': "?h = h\<lparr>outcomes := (outcomes h)(j := out)\<rparr>"
        using j waiting by simp
      have p': "env p' = now h"
        using resume_call_env [of t out "proc \<sigma>"] r d(2) by simp
      have res: "res = fst (resume_call t out \<lparr>env = Map.empty, stderr = []\<rparr>)"
        using resume_call_frame [of t out "proc \<sigma>" "\<lparr>env = Map.empty, stderr = []\<rparr>"] r
        by simp
      show ?thesis
      proof (rule in_stepI)
        show "invoked ?\<sigma> = length (calls_made ?h)"
          by (simp only: \<sigma>' calls) (simp add: d(1))
        show "env (proc ?\<sigma>) = now ?h"
          by (simp only: \<sigma>' now) (simp add: p')
        show "outside ?\<sigma> = foldl (own_client m) s0 (calls_made ?h)"
          by (simp only: \<sigma>' calls) (simp add: d(3))
        show "suspended ?\<sigma> k = None \<and> finished ?\<sigma> k = None \<and> outcomes ?h k = Pending"
          if "length (calls_made ?h) \<le> k" for k
        proof -
          from that have nk: "?n \<le> k"
            by (simp only: calls)
          with j have "k \<noteq> j"
            by simp
          with d(4) [OF nk] show ?thesis
            by (simp only: \<sigma>' h') simp
        qed
        show "status_ok ?\<sigma> k (begun m s0 (calls_made ?h) k) (outcomes ?h k)"
          if "k < length (calls_made ?h)" for k
        proof (cases "k = j")
          case True
          with waiting False res show ?thesis
            by (simp only: \<sigma>' h') (simp add: status_ok_def)
        next
          case neq: False
          from that have k: "k < ?n"
            by (simp only: calls)
          have "status_ok ?\<sigma> k (begun m s0 ?cs k) (outcomes h k)
              = status_ok \<sigma> k (begun m s0 ?cs k) (outcomes h k)"
            using neq by (intro status_ok_same) (simp_all only: \<sigma>', simp_all)
          with d(5) [OF k] neq show ?thesis
            by (simp only: h') simp
        qed
      qed
    qed
  qed
qed

lemma in_step_event:
  assumes "in_step m s0 \<sigma> h"
  shows "in_step m s0 (step m \<sigma> e) (observe h e)"
  using assms by (cases e) (simp_all only: in_step_Invoke in_step_Settle in_step_Setenv)

lemma in_step_run: "in_step m s0 (run m es (start e0 l0 s0)) (watch e0 es)"
proof (induction es rule: rev_induct)
  case Nil
  show ?case
    using in_step_start [of m s0 e0 l0] by (simp add: run_def)
next
  case (snoc e es)
  then show ?case
    by (simp only: run_snoc watch_snoc in_step_event)
qed

lemma begin_call_stderr:
  "\<exists>entries. stderr (fst (snd (begin_call m c p s))) = stderr p @ entries"
proof (cases c)
  case FetchProducts
  from fetchProducts_begin_facts(1) [of m p s]
  have "stderr (fst (snd (fetchProducts_begin m p s))) = stderr p @ []
      \<or> (\<exists>error. stderr (fst (snd (fetchProducts_begin m p s)))
            = stderr p @ [(''Error fetching products:'', error)])"
    by auto
  with FetchProducts show ?thesis
    by auto
next
  case (FetchProduct pid)
  from fetchProduct_begin_facts(1) [of m pid p s]
  have "stderr (fst (snd (fetchProduct_begin m pid p s))) = stderr p @ []
      \<or> (\<exists>error. stderr (fst (snd (fetchProduct_begin m pid p s)))
            = stderr p @ [(''Error fetching product:'', error)])"
    by auto
  with FetchProduct show ?thesis
    by auto
qed

lemma resume_call_stderr:
  "\<exists>entries. stderr (snd (resume_call t out p)) = stderr p @ entries"
  by (cases t; cases out)
    (simp_all add: fetchProducts_resume_def fetchProduct_resume_def fetchProducts_catch_def
      fetchProduct_catch_def console_error_def)

lemma step_stderr: "\<exists>entries. stderr (proc (step m \<sigma> e)) = stderr (proc \<sigma>) @ entries"
proof (cases e)
  case (Invoke c)
  obtain g p' s' where b: "begin_call m c (proc \<sigma>) (outside \<sigma>) = (g, p', s')"
    by (cases "begin_call m c (proc \<sigma>) (outside \<sigma>)")
  with begin_call_stderr [of m c "proc \<sigma>" "outside \<sigma>"]
  have "\<exists>entries. stderr p' = stderr (proc \<sigma>) @ entries"
    by simp
  moreover from Invoke b have "proc (step m \<sigma> e) = p'"
    by (cases g) simp_all
  ultimately show ?thesis
    by simp
next
  case (Settle k out)
  show ?thesis
  proof (cases "suspended \<sigma> k")
    case None
    with Settle have "stderr (proc (step m \<sigma> e)) = stderr (proc \<sigma>) @ []"
      by simp
    then show ?thesis by (rule exI)
  next
    case (Some t)
    show ?thesis
    proof (cases "out = Pending")
      case True
      with Settle Some have "stderr (proc (step m \<sigma> e)) = stderr (proc \<sigma>) @ []"
        by simp
      then show ?thesis by (rule exI)
    next
      case False
      with Settle Some have "proc (step m \<sigma> e) = snd (resume_call t out (proc \<sigma>))"
        by (simp split: prod.split)
      with resume_call_stderr [of t out "proc \<sigma>"] show ?thesis
        by simp
    qed
  qed
next
  case (Setenv name v)
  then have "stderr (proc (step m \<sigma> e)) = stderr (proc \<sigma>) @ []"
    by simp
  then show ?thesis by (rule exI)
qed

lemma run_stderr: "\<exists>entries. stderr (proc (run m es \<sigma>)) = stderr (proc \<sigma>) @ entries"
proof (induction es rule: rev_induct)
  case Nil
  have "stderr (proc (run m [] \<sigma>)) = stderr (proc \<sigma>) @ []"
    by (simp add: run_def)
  then show ?case by (rule exI)
next
  case (snoc e es)
  then obtain xs where xs: "stderr (proc (run m es \<sigma>)) = stderr (proc \<sigma>) @ xs" ..
  from step_stderr [of m "run m es \<sigma>" e]
  obtain ys where "stderr (proc (step m (run m es \<sigma>) e)) = stderr (proc (run m es \<sigma>)) @ ys" ..
  with xs have "stderr (proc (run m (es @ [e]) \<sigma>)) = stderr (proc \<sigma>) @ (xs @ ys)"
    by (simp add: run_snoc)
  then show ?case by (rule exI)
qed

lemma status_ok_result:
  assumes "status_ok \<sigma> k (fst (begin_call m c p s)) out"
  shows "result_of \<sigma> k = alone m s (c, env p) out"
proof -
  let ?p = "\<lparr>env = Map.empty, stderr = []\<rparr>"
  have "result_of \<sigma> k =
      (case fst (begin_call m c p s) of
         Threw thrown \<Rightarrow> Rejected thrown
       | Suspended t \<Rightarrow> fst (resume_call t out ?p))"
  proof (cases "fst (begin_call m c p s)")
    case (Threw thrown)
    with assms show ?thesis
      by (simp add: status_ok_def result_of_def)
  next
    case (Suspended t)
    with assms show ?thesis
      by (cases "out = Pending") (simp_all add: status_ok_def result_of_def resume_call_Pending)
  qed
  then show ?thesis
    by (simp only: begin_resume_alone)
qed

lemma overlapping_watch:
  "calls_made (watch mock_env overlapping)
     = [(FetchProducts, mock_env),
        (FetchProduct ''prod_123'', mock_env(''CREVIO_ACCOUNT_API_KEY'' \<mapsto> ''key_rotated''))]"
  "outcomes (watch mock_env overlapping) 0 = Rejected ''network error''"
  "outcomes (watch mock_env overlapping) (Suc 0) = Resolved (JsObject [(''id'', ''prod_123'')])"
  "now (watch mock_env overlapping) = mock_env(''CREVIO_ACCOUNT_API_KEY'' \<mapsto> ''key_rotated'')"
  by (simp_all add: watch_def overlapping_def)

section \<open>Calls and runs\<close>

text \<open>
  C7. Calls may overlap in any way, and the environment may change between them. Every
  call constructs a client of its own from the two variables as the environment has
  them at the moment of the call, and calls its remote operation on the handle that
  this construction returned: the SDK is used in exactly this way, once per call, in
  the order of the calls, whatever the SDK is. No call writes the environment, and all
  that calls leave in the process is what they append to the diagnostic channel. Every
  call settles as the same call would alone, given the environment it was made in, the
  answers the SDK gave it and the settlement of its own promise.
\<close>

theorem calls_construct_own_client:
  "env (proc (run m es (start e0 l0 s0))) = now (watch e0 es)
   \<and> (\<exists>entries. stderr (proc (run m es (start e0 l0 s0))) = l0 @ entries)
   \<and> outside (run m es (start e0 l0 s0)) = foldl (own_client m) s0 (calls_made (watch e0 es))
   \<and> (\<forall>k < length (calls_made (watch e0 es)).
         result_of (run m es (start e0 l0 s0)) k
           = alone m (foldl (own_client m) s0 (take k (calls_made (watch e0 es))))
               (calls_made (watch e0 es) ! k) (outcomes (watch e0 es) k))"
proof (intro conjI allI impI)
  let ?\<sigma> = "run m es (start e0 l0 s0)"
  let ?h = "watch e0 es"
  note d = in_stepD [OF in_step_run [of m s0 es e0 l0]]
  show "env (proc ?\<sigma>) = now ?h"
    by (rule d(2))
  show "\<exists>entries. stderr (proc ?\<sigma>) = l0 @ entries"
    using run_stderr [of m es "start e0 l0 s0"] by (simp add: start_def)
  show "outside ?\<sigma> = foldl (own_client m) s0 (calls_made ?h)"
    by (rule d(3))
  show "result_of ?\<sigma> k
      = alone m (foldl (own_client m) s0 (take k (calls_made ?h))) (calls_made ?h ! k)
          (outcomes ?h k)"
    if "k < length (calls_made ?h)" for k
  proof -
    obtain c e where ce: "calls_made ?h ! k = (c, e)"
      by (cases "calls_made ?h ! k")
    from d(5) [OF that] ce
    have "status_ok ?\<sigma> k
        (fst (begin_call m c \<lparr>env = e, stderr = []\<rparr>
                (foldl (own_client m) s0 (take k (calls_made ?h)))))
        (outcomes ?h k)"
      by (simp add: begun_def before_def)
    from status_ok_result [OF this] ce show ?thesis
      by simp
  qed
qed

theorem calls_construct_own_client_witness:
  "constructed (outside overlapped)
     = [mock_options, mock_options\<lparr>apiKeyAuth := Some ''key_rotated''\<rparr>]
   \<and> requested (outside overlapped) = [(0, ListAll), (1, GetOne \<lparr>prefixId = ''prod_123''\<rparr>)]
   \<and> result_of overlapped 0 = Rejected (Error ''Failed to load products'')
   \<and> result_of overlapped 1 = Resolved (JsObject [(''id'', ''prod_123'')])
   \<and> env (proc overlapped) ''CREVIO_ACCOUNT_API_KEY'' = Some ''key_rotated''"
proof -
  let ?m = "recording_sdk (\<lambda>options. None)"
  let ?s0 = "\<lparr>constructed = [], requested = []\<rparr>"
  let ?h = "watch mock_env overlapping :: (string, product) history"
  note t = calls_construct_own_client [of ?m overlapping mock_env "[]" ?s0, folded overlapped_def]
  have e: "env (proc overlapped) = now ?h"
    by (rule t [THEN conjunct1])
  have o: "outside overlapped = foldl (own_client ?m) ?s0 (calls_made ?h)"
    by (rule t [THEN conjunct2, THEN conjunct2, THEN conjunct1])
  have r: "result_of overlapped k
      = alone ?m (foldl (own_client ?m) ?s0 (take k (calls_made ?h))) (calls_made ?h ! k)
          (outcomes ?h k)"
    if "k < length (calls_made ?h)" for k
    using t [THEN conjunct2, THEN conjunct2, THEN conjunct2] that by blast
  have log: "outside overlapped
      = \<lparr>constructed = [mock_options, mock_options\<lparr>apiKeyAuth := Some ''key_rotated''\<rparr>],
         requested = [(0, ListAll), (1, GetOne \<lparr>prefixId = ''prod_123''\<rparr>)]\<rparr>"
    by (simp only: o overlapping_watch)
      (simp add: own_client_def recording_sdk_def options_from_def request_on_def mock_env_def
        mock_options_def)
  have r0: "result_of overlapped 0 = Rejected (Error ''Failed to load products'')"
    by (simp add: r overlapping_watch)
      (simp add: alone_def answers_at_def recording_sdk_def fst_fetchProducts
        fetchProducts_try_def createCrevioClient_def)
  have r1: "result_of overlapped (Suc 0) = Resolved (JsObject [(''id'', ''prod_123'')])"
    by (simp add: r overlapping_watch)
      (simp add: alone_def answers_at_def recording_sdk_def fst_fetchProduct
        fetchProduct_try_def createCrevioClient_def own_client_def)
  have key: "env (proc overlapped) ''CREVIO_ACCOUNT_API_KEY'' = Some ''key_rotated''"
    by (simp only: e overlapping_watch) simp
  from log r0 r1 key show ?thesis
    by simp
qed

text \<open>
  C10. Two runs settle alike when the two configuration values are the same in both
  environments, the constructor answers the same in both, and the remote operation
  answers the same on the handle constructed: \<^verbatim>\<open>fetchProducts\<close> resolves with the same
  value or rejects with the same error in both, and so does \<^verbatim>\<open>fetchProduct\<close> for the
  same identifier. The rest of the environment and the earlier content of the diagnostic
  channel have no influence.
\<close>

theorem accessors_deterministic:
  assumes "env w1 ''CREVIO_ACCOUNT_API_KEY'' = env w2 ''CREVIO_ACCOUNT_API_KEY''"
    and "env w1 ''CREVIO_PROJECT_URL'' = env w2 ''CREVIO_PROJECT_URL''"
    and "createCrevioClient sdk1 w1 = createCrevioClient sdk2 w1"
    and "\<forall>crevio. createCrevioClient sdk1 w1 = Inr crevio
           \<longrightarrow> products_list sdk1 crevio = products_list sdk2 crevio
             \<and> products_get sdk1 crevio \<lparr>prefixId = pid\<rparr>
                 = products_get sdk2 crevio \<lparr>prefixId = pid\<rparr>"
  shows "fst (fetchProducts sdk1 w1) = fst (fetchProducts sdk2 w2)
       \<and> fst (fetchProduct sdk1 pid w1) = fst (fetchProduct sdk2 pid w2)"
proof -
  have client: "createCrevioClient sdk1 w1 = createCrevioClient sdk2 w2"
    using assms(3) createCrevioClient_env [OF assms(1) assms(2), of sdk2] by simp
  have "fetchProducts_try sdk1 w1 = fetchProducts_try sdk2 w2
      \<and> fetchProduct_try sdk1 pid w1 = fetchProduct_try sdk2 pid w2"
  proof (cases "createCrevioClient sdk1 w1")
    case (Inl error)
    moreover from Inl client have "createCrevioClient sdk2 w2 = Inl error"
      by simp
    ultimately show ?thesis
      by (simp add: fetchProducts_try_def fetchProduct_try_def)
  next
    case (Inr crevio)
    with assms(4) have "products_list sdk1 crevio = products_list sdk2 crevio"
      and "products_get sdk1 crevio \<lparr>prefixId = pid\<rparr> = products_get sdk2 crevio \<lparr>prefixId = pid\<rparr>"
      by simp_all
    moreover from Inr client have "createCrevioClient sdk2 w2 = Inr crevio"
      by simp
    ultimately show ?thesis
      using Inr by (simp add: fetchProducts_try_def fetchProduct_try_def)
  qed
  then show ?thesis
    by (simp add: fst_fetchProducts fst_fetchProduct)
qed

theorem accessors_deterministic_witness:
  "env mock_process ''CREVIO_ACCOUNT_API_KEY'' = env later_process ''CREVIO_ACCOUNT_API_KEY''
   \<and> env mock_process ''CREVIO_PROJECT_URL'' = env later_process ''CREVIO_PROJECT_URL''
   \<and> env mock_process ''NODE_ENV'' \<noteq> env later_process ''NODE_ENV''
   \<and> stderr mock_process \<noteq> stderr later_process
   \<and> fst (fetchProducts keyed_sdk mock_process) = fst (fetchProducts keyed_sdk later_process)
   \<and> fst (fetchProducts keyed_sdk later_process) = Resolved (JsArray [])
   \<and> fst (fetchProduct keyed_sdk ''prod_123'' mock_process)
       = fst (fetchProduct keyed_sdk ''prod_123'' later_process)
   \<and> fst (fetchProduct keyed_sdk ''prod_123'' later_process)
       = Resolved (JsObject [(''id'', ''prod_123'')])"
proof -
  have keys: "env mock_process ''CREVIO_ACCOUNT_API_KEY'' = env later_process ''CREVIO_ACCOUNT_API_KEY''"
    "env mock_process ''CREVIO_PROJECT_URL'' = env later_process ''CREVIO_PROJECT_URL''"
    by (simp_all add: mock_process_def later_process_def mock_env_def)
  have differ: "env mock_process ''NODE_ENV'' \<noteq> env later_process ''NODE_ENV''"
    by (simp add: mock_process_def later_process_def mock_env_def)
  have log: "stderr mock_process \<noteq> stderr later_process"
    by (simp add: mock_process_def later_process_def)
  have client: "createCrevioClient keyed_sdk later_process = Inr mock_options"
    by (simp add: createCrevioClient_def keyed_sdk_def later_process_def mock_env_def
        mock_options_def)
  have remote: "products_list keyed_sdk mock_options = Resolved (JsArray [])"
    "products_get keyed_sdk mock_options \<lparr>prefixId = ''prod_123''\<rparr>
       = Resolved (JsObject [(''id'', ''prod_123'')])"
    by (simp_all add: keyed_sdk_def mock_options_def echo_get_def)
  have listed: "fst (fetchProducts keyed_sdk later_process) = Resolved (JsArray [])"
    by (simp add: fst_fetchProducts fetchProducts_try_def client remote js_or_def)
  have got: "fst (fetchProduct keyed_sdk ''prod_123'' later_process)
      = Resolved (JsObject [(''id'', ''prod_123'')])"
    by (simp add: fst_fetchProduct fetchProduct_try_def client remote)
  have same: "fst (fetchProducts keyed_sdk mock_process) = fst (fetchProducts keyed_sdk later_process)
      \<and> fst (fetchProduct keyed_sdk ''prod_123'' mock_process)
          = fst (fetchProduct keyed_sdk ''prod_123'' later_process)"
    by (rule accessors_deterministic [OF keys]) simp_all
  with keys differ log listed got show ?thesis
    by simp
qed

end
